theory Spec2Isabelle
  imports Complex_Main "HOL-Library.List_Lexorder" "HOL-Library.Char_ord"
begin

section \<open>Home.py: the landing page of the Global Economy Dashboard\<close>

text \<open>
  The page is a script that runs top to bottom on every render: it configures the page,
  loads one parquet file through a memoised loader, and emits a sequence of user-interface
  elements. The model below keeps that shape. Text is a \<^typ>\<open>string\<close> holding the UTF-8
  bytes of the Python string; the order on strings is the lexicographic order on bytes,
  which on UTF-8 is Python's order on code points.
\<close>

subsection \<open>Data frames\<close>

text \<open>
  A parquet file is typed by column, so a frame is a list of named, typed columns over a
  common index. The three column types are those of the long-format schema: text,
  integer (pandas' nullable \<open>Int64\<close>) and number (\<open>float64\<close>); \<open>None\<close> is the missing
  value of each. The page does no arithmetic on numbers, it only compares and truncates
  them. \<open>nrows\<close> is the length of the index, which a frame has even when it has no column. The labels of a table written to parquet are distinct, and
  \<open>df[c]\<close> is modelled for such tables: it is the column labelled \<open>c\<close>.
\<close>

type_synonym path = string

datatype error = OSError | ReadError | KeyError | TypeError | ValueError | OverflowError

text \<open>
  A \<open>float64\<close> that is not NaN: a finite value, denoted by the rational it represents, or
  one of the two infinities. The order is the order of the floats.
\<close>

datatype float64 = NegInf | Finite rat | PosInf

instantiation float64 :: linorder
begin

fun less_eq_float64 :: "float64 \<Rightarrow> float64 \<Rightarrow> bool" where
  "less_eq_float64 NegInf _ = True"
| "less_eq_float64 (Finite a) NegInf = False"
| "less_eq_float64 (Finite a) (Finite b) = (a \<le> b)"
| "less_eq_float64 (Finite a) PosInf = True"
| "less_eq_float64 PosInf PosInf = True"
| "less_eq_float64 PosInf _ = False"

definition less_float64 :: "float64 \<Rightarrow> float64 \<Rightarrow> bool" where
  "less_float64 x y \<longleftrightarrow> x \<le> y \<and> \<not> y \<le> x"

instance
proof
  fix x y z :: float64
  show "x < y \<longleftrightarrow> x \<le> y \<and> \<not> y \<le> x" by (rule less_float64_def)
  show "x \<le> x" by (cases x) simp_all
  show "x \<le> y \<Longrightarrow> y \<le> z \<Longrightarrow> x \<le> z" by (cases x; cases y; cases z) simp_all
  show "x \<le> y \<Longrightarrow> y \<le> x \<Longrightarrow> x = y" by (cases x; cases y) simp_all
  show "x \<le> y \<or> y \<le> x" by (cases x; cases y) auto
qed

end

datatype column =
    StrCol "string option list"
  | IntCol "int option list"
  | NumCol "float64 option list"

record dataframe =
  nrows :: nat
  cols :: "(string \<times> column) list"

text \<open>A Python value taken out of a column.\<close>

datatype pyval = NoneV | StrV string | IntV int | NumV float64

definition DataFrame :: dataframe where
  \<comment> \<open>\<open>pd.DataFrame()\<close>\<close>
  "DataFrame = \<lparr>nrows = 0, cols = []\<rparr>"

definition columns :: "dataframe \<Rightarrow> string list" where
  \<comment> \<open>\<open>df.columns\<close>\<close>
  "columns df = map fst (cols df)"

definition empty :: "dataframe \<Rightarrow> bool" where
  \<comment> \<open>\<open>df.empty\<close>: some axis has length 0\<close>
  "empty df \<longleftrightarrow> nrows df = 0 \<or> cols df = []"

definition len :: "dataframe \<Rightarrow> nat" where
  \<comment> \<open>\<open>len(df)\<close>\<close>
  "len df = nrows df"

definition getitem :: "dataframe \<Rightarrow> string \<Rightarrow> error + column" where
  \<comment> \<open>\<open>df[c]\<close> for one label\<close>
  "getitem df c = (case map_of (cols df) c of None \<Rightarrow> Inl KeyError | Some s \<Rightarrow> Inr s)"

definition getitem_list :: "dataframe \<Rightarrow> string list \<Rightarrow> error + dataframe" where
  \<comment> \<open>\<open>df[labels]\<close> for a list of labels: the columns in the order of the labels\<close>
  "getitem_list df labels =
     (if \<forall>c \<in> set labels. c \<in> set (columns df)
      then Inr (df\<lparr>cols := concat (map (\<lambda>c. filter (\<lambda>nc. fst nc = c) (cols df)) labels)\<rparr>)
      else Inl KeyError)"

fun head_col :: "nat \<Rightarrow> column \<Rightarrow> column" where
  "head_col n (StrCol xs) = StrCol (take n xs)"
| "head_col n (IntCol xs) = IntCol (take n xs)"
| "head_col n (NumCol xs) = NumCol (take n xs)"

definition head :: "nat \<Rightarrow> dataframe \<Rightarrow> dataframe" where
  \<comment> \<open>\<open>df.head(n)\<close>\<close>
  "head n df = \<lparr>nrows = min n (nrows df), cols = map (\<lambda>nc. (fst nc, head_col n (snd nc))) (cols df)\<rparr>"

subsection \<open>Conversion of text to an integer\<close>

text \<open>
  \<open>int(s)\<close> on a string, as CPython 3.11 does it (Unicode 14.0): white space and decimal
  digits beyond ASCII are first replaced by a blank and by the ASCII digit of the same value;
  then blanks are skipped at both ends, one sign is read, and what remains must be decimal
  digits, where single underscores may stand between two digits. More than 4300 digits are
  refused. Everything else raises \<open>ValueError\<close>.
\<close>

fun utf8_decode :: "nat list \<Rightarrow> nat list option" where
  \<comment> \<open>the code points of a string given by its UTF-8 bytes\<close>
  "utf8_decode [] = Some []"
| "utf8_decode (b # bs) =
     (if b < 0x80 then map_option ((#) b) (utf8_decode bs)
      else if 0xC0 \<le> b \<and> b < 0xE0 then
        (case bs of
           c1 # r \<Rightarrow> map_option ((#) ((b - 0xC0) * 0x40 + (c1 - 0x80))) (utf8_decode r)
         | _ \<Rightarrow> None)
      else if 0xE0 \<le> b \<and> b < 0xF0 then
        (case bs of
           c1 # c2 # r \<Rightarrow>
             map_option ((#) ((b - 0xE0) * 0x1000 + (c1 - 0x80) * 0x40 + (c2 - 0x80))) (utf8_decode r)
         | _ \<Rightarrow> None)
      else if 0xF0 \<le> b \<and> b < 0xF8 then
        (case bs of
           c1 # c2 # c3 # r \<Rightarrow>
             map_option
               ((#) ((b - 0xF0) * 0x40000 + (c1 - 0x80) * 0x1000 + (c2 - 0x80) * 0x40 + (c3 - 0x80)))
               (utf8_decode r)
         | _ \<Rightarrow> None)
      else None)"

definition is_space :: "nat \<Rightarrow> bool" where
  \<comment> \<open>the code points \<open>int\<close> skips at both ends: C's white space, and \<open>str.isspace\<close>
      beyond ASCII\<close>
  "is_space c \<longleftrightarrow>
     (9 \<le> c \<and> c \<le> 13) \<or> c = 0x20 \<or> c = 0x85 \<or> c = 0xA0 \<or> c = 0x1680
     \<or> (0x2000 \<le> c \<and> c \<le> 0x200A) \<or> c = 0x2028 \<or> c = 0x2029 \<or> c = 0x202F
     \<or> c = 0x205F \<or> c = 0x3000"

definition decimal_zeros :: "nat list" where
  \<comment> \<open>the digit zero of every script; the digits one to nine follow it\<close>
  "decimal_zeros =
     [0x30, 0x660, 0x6F0, 0x7C0, 0x966, 0x9E6, 0xA66, 0xAE6,
      0xB66, 0xBE6, 0xC66, 0xCE6, 0xD66, 0xDE6, 0xE50, 0xED0,
      0xF20, 0x1040, 0x1090, 0x17E0, 0x1810, 0x1946, 0x19D0, 0x1A80,
      0x1A90, 0x1B50, 0x1BB0, 0x1C40, 0x1C50, 0xA620, 0xA8D0, 0xA900,
      0xA9D0, 0xA9F0, 0xAA50, 0xABF0, 0xFF10, 0x104A0, 0x10D30, 0x11066,
      0x110F0, 0x11136, 0x111D0, 0x112F0, 0x11450, 0x114D0, 0x11650, 0x116C0,
      0x11730, 0x118E0, 0x11950, 0x11C50, 0x11D50, 0x11DA0, 0x16A60, 0x16AC0,
      0x16B50, 0x1D7CE, 0x1D7D8, 0x1D7E2, 0x1D7EC, 0x1D7F6, 0x1E140, 0x1E2F0,
      0x1E950, 0x1FBF0]"

definition decimal :: "nat \<Rightarrow> nat option" where
  \<comment> \<open>the value of a decimal digit\<close>
  "decimal c =
     (case filter (\<lambda>z. z \<le> c \<and> c < z + 10) decimal_zeros of
        [] \<Rightarrow> None
      | z # _ \<Rightarrow> Some (c - z))"

datatype token = Blank | Plus | Minus | Underscore | Digit nat | Other

definition token_of :: "nat \<Rightarrow> token" where
  "token_of c =
     (if is_space c then Blank
      else if c = 0x2B then Plus
      else if c = 0x2D then Minus
      else if c = 0x5F then Underscore
      else case decimal c of Some d \<Rightarrow> Digit d | None \<Rightarrow> Other)"

fun digits_of :: "token list \<Rightarrow> nat list option" where
  \<comment> \<open>digits, with single underscores between two of them\<close>
  "digits_of [Digit d] = Some [d]"
| "digits_of (Digit d # Underscore # ts) = map_option ((#) d) (digits_of ts)"
| "digits_of (Digit d # ts) = map_option ((#) d) (digits_of ts)"
| "digits_of _ = None"

fun unsigned :: "token list \<Rightarrow> int \<times> token list" where
  "unsigned (Plus # ts) = (1, ts)"
| "unsigned (Minus # ts) = (- 1, ts)"
| "unsigned ts = (1, ts)"

definition strip :: "token list \<Rightarrow> token list" where
  "strip ts = rev (dropWhile (\<lambda>t. t = Blank) (rev (dropWhile (\<lambda>t. t = Blank) ts)))"

definition int_of_str :: "string \<Rightarrow> error + int" where
  "int_of_str s =
     (case utf8_decode (map of_char s) of
        None \<Rightarrow> Inl ValueError
      | Some cs \<Rightarrow>
          (case unsigned (strip (map token_of cs)) of
             (sign, ts) \<Rightarrow>
               (case digits_of ts of
                  None \<Rightarrow> Inl ValueError
                | Some ds \<Rightarrow>
                    if length ds > 4300 then Inl ValueError
                    else Inr (sign * int (foldl (\<lambda>a d. 10 * a + d) 0 ds)))))"

subsection \<open>Series operations\<close>

definition dropna :: "'a option list \<Rightarrow> 'a list" where
  "dropna xs = concat (map (\<lambda>x. case x of None \<Rightarrow> [] | Some v \<Rightarrow> [v]) xs)"

fun unique :: "'a list \<Rightarrow> 'a list" where
  \<comment> \<open>the distinct values in order of first appearance\<close>
  "unique [] = []"
| "unique (x # xs) = x # unique (filter (\<lambda>y. y \<noteq> x) xs)"

fun nunique :: "column \<Rightarrow> nat" where
  \<comment> \<open>\<open>Series.nunique()\<close>, which leaves missing values out\<close>
  "nunique (StrCol xs) = length (unique (dropna xs))"
| "nunique (IntCol xs) = length (unique (dropna xs))"
| "nunique (NumCol xs) = length (unique (dropna xs))"

fun sorted_unique :: "column \<Rightarrow> pyval list" where
  \<comment> \<open>\<open>sorted(s.dropna().unique().tolist())\<close>\<close>
  "sorted_unique (StrCol xs) = map StrV (sort (unique (dropna xs)))"
| "sorted_unique (IntCol xs) = map IntV (sort (unique (dropna xs)))"
| "sorted_unique (NumCol xs) = map NumV (sort (unique (dropna xs)))"

definition trunc :: "rat \<Rightarrow> int" where
  \<comment> \<open>rounding towards zero\<close>
  "trunc q = (if 0 \<le> q then \<lfloor>q\<rfloor> else \<lceil>q\<rceil>)"

fun int_of_float :: "float64 \<Rightarrow> error + int" where
  \<comment> \<open>\<open>int(x)\<close> on a float that is not NaN: it truncates, and raises on an infinity\<close>
  "int_of_float (Finite q) = Inr (trunc q)"
| "int_of_float NegInf = Inl OverflowError"
| "int_of_float PosInf = Inl OverflowError"

fun int_min :: "column \<Rightarrow> error + int" where
  \<comment> \<open>\<open>int(s.min())\<close>. The minimum skips missing values (\<open>skipna\<close>), and is itself missing
      when nothing is left: \<open>int\<close> then raises, \<open>TypeError\<close> on \<open>pd.NA\<close> and
      \<open>ValueError\<close> on NaN. The minimum of a text column is its least string.\<close>
  "int_min (IntCol xs) = (case dropna xs of [] \<Rightarrow> Inl TypeError | v # vs \<Rightarrow> Inr (fold min vs v))"
| "int_min (NumCol xs) = (case dropna xs of [] \<Rightarrow> Inl ValueError | v # vs \<Rightarrow> int_of_float (fold min vs v))"
| "int_min (StrCol xs) = (case dropna xs of [] \<Rightarrow> Inl ValueError | v # vs \<Rightarrow> int_of_str (fold min vs v))"

fun int_max :: "column \<Rightarrow> error + int" where
  \<comment> \<open>\<open>int(s.max())\<close>\<close>
  "int_max (IntCol xs) = (case dropna xs of [] \<Rightarrow> Inl TypeError | v # vs \<Rightarrow> Inr (fold max vs v))"
| "int_max (NumCol xs) = (case dropna xs of [] \<Rightarrow> Inl ValueError | v # vs \<Rightarrow> int_of_float (fold max vs v))"
| "int_max (StrCol xs) = (case dropna xs of [] \<Rightarrow> Inl ValueError | v # vs \<Rightarrow> int_of_str (fold max vs v))"

subsection \<open>Paths and data loading (lines 14 to 24)\<close>

definition joinpath :: "path \<Rightarrow> string \<Rightarrow> path" where
  \<comment> \<open>\<open>base / name\<close> on a resolved POSIX path\<close>
  "joinpath base name = (if base = ''/'' then base @ name else base @ ''/'' @ name)"

definition DATA_PATH :: "path \<Rightarrow> path" where
  \<comment> \<open>the argument is \<open>BASE_DIR\<close>, the directory of the script\<close>
  "DATA_PATH BASE_DIR = joinpath (joinpath (joinpath BASE_DIR ''data'') ''processed'') ''econ_option_a.parquet''"

text \<open>
  Storage maps a path to what the operating system answers for it: that there is no such
  file (\<open>None\<close>), a parquet file holding a table, something \<open>pd.read_parquet\<close> cannot
  read, or an error of the check itself (\<open>StatError\<close>: \<open>stat\<close> fails other than by
  finding nothing, as on a name too long to be a file's, and \<open>Path.exists\<close> of Python 3.11
  passes that \<open>OSError\<close> on). The accesses a call makes are returned with its result, so
  that a call that does not touch storage has an empty trace.
\<close>

datatype entry = Parquet dataframe | Unreadable | StatError

type_synonym storage = "path \<rightharpoonup> entry"

datatype access = Exists path | ReadParquet path

definition load_data :: "storage \<Rightarrow> path \<Rightarrow> (error + dataframe) \<times> access list" where
  "load_data fs p =
     (case fs p of
        None \<Rightarrow> (Inr DataFrame, [Exists p])
      | Some StatError \<Rightarrow> (Inl OSError, [Exists p])
      | Some (Parquet df) \<Rightarrow> (Inr df, [Exists p, ReadParquet p])
      | Some Unreadable \<Rightarrow> (Inl ReadError, [Exists p, ReadParquet p]))"

record process =
  cache :: "path \<rightharpoonup> dataframe"
  trace :: "access list"

definition cached_load_data :: "storage \<Rightarrow> process \<Rightarrow> path \<Rightarrow> (error + dataframe) \<times> process" where
  \<comment> \<open>Modelled from the spec: the \<open>@st.cache_data\<close> decorator of \<open>load_data\<close> is the
      framework's, not this repository's. Its contract: the result is cached keyed by
      path, and a repeated call with the same path returns the cached result without
      running the body. A call that raises returns nothing, so nothing is cached.\<close>
  "cached_load_data fs s p =
     (case cache s p of
        Some df \<Rightarrow> (Inr df, s)
      | None \<Rightarrow>
          (case load_data fs p of
             (Inl e, io) \<Rightarrow> (Inl e, s\<lparr>trace := trace s @ io\<rparr>)
           | (Inr df, io) \<Rightarrow> (Inr df, s\<lparr>cache := (cache s)(p \<mapsto> df), trace := trace s @ io\<rparr>)))"

subsection \<open>Formatting\<close>

definition digit :: "nat \<Rightarrow> char" where
  "digit d = ''0123456789'' ! (d mod 10)"

fun str_nat :: "nat \<Rightarrow> string" where
  "str_nat n = (if n < 10 then [digit n] else str_nat (n div 10) @ [digit n])"

definition str_int :: "int \<Rightarrow> string" where
  \<comment> \<open>\<open>f"{i}"\<close> on an int\<close>
  "str_int i = (if i < 0 then ''-'' @ str_nat (nat (- i)) else str_nat (nat i))"

definition str_opt_int :: "int option \<Rightarrow> string" where
  \<comment> \<open>\<open>f"{x}"\<close> where x is an int or \<open>None\<close>\<close>
  "str_opt_int x = (case x of None \<Rightarrow> ''None'' | Some i \<Rightarrow> str_int i)"

fun format_comma :: "nat \<Rightarrow> string" where
  \<comment> \<open>\<open>f"{n:,}"\<close> on a count: decimal digits grouped in threes\<close>
  "format_comma n =
     (if n < 1000 then str_nat n
      else format_comma (n div 1000) @ '','' @ [digit (n div 100), digit (n div 10), digit n])"

text \<open>The two recursions unfold on numerals only where a proof asks for it.\<close>

declare str_nat.simps [simp del] format_comma.simps [simp del]

definition em_dash :: string where
  "em_dash = [CHR 0xE2, CHR 0x80, CHR 0x94]"

definition arrow :: string where
  "arrow = [CHR 0xE2, CHR 0x86, CHR 0x92]"

subsection \<open>Quick stats (lines 55 to 59)\<close>

text \<open>
  Each statistic is guarded by \<open>"c" in df.columns\<close>, which holds exactly when the lookup
  of \<open>c\<close> finds a column, so guard and lookup are one case distinction here.
\<close>

definition countries :: "dataframe \<Rightarrow> nat" where
  "countries df = (case getitem df ''country_code'' of Inr s \<Rightarrow> nunique s | Inl _ \<Rightarrow> 0)"

definition indicators :: "dataframe \<Rightarrow> pyval list" where
  "indicators df = (case getitem df ''indicator_name'' of Inr s \<Rightarrow> sorted_unique s | Inl _ \<Rightarrow> [])"

definition year_min :: "dataframe \<Rightarrow> error + int option" where
  "year_min df =
     (case getitem df ''year'' of
        Inr s \<Rightarrow> (case int_min s of Inl e \<Rightarrow> Inl e | Inr y \<Rightarrow> Inr (Some y))
      | Inl _ \<Rightarrow> Inr None)"

definition year_max :: "dataframe \<Rightarrow> error + int option" where
  "year_max df =
     (case getitem df ''year'' of
        Inr s \<Rightarrow> (case int_max s of Inl e \<Rightarrow> Inl e | Inr y \<Rightarrow> Inr (Some y))
      | Inl _ \<Rightarrow> Inr None)"

definition rows :: "dataframe \<Rightarrow> nat" where
  "rows df = len df"

subsection \<open>Dataset preview (lines 180 and 181)\<close>

definition show_cols :: "dataframe \<Rightarrow> string list" where
  "show_cols df =
     filter (\<lambda>c. c \<in> set (columns df))
       [''country'', ''country_code'', ''year'', ''indicator_name'', ''value'', ''source'']"

definition preview :: "dataframe \<Rightarrow> error + dataframe" where
  \<comment> \<open>\<open>df[show_cols].head(50)\<close>\<close>
  "preview df = (case getitem_list df (show_cols df) of Inl e \<Rightarrow> Inl e | Inr d \<Rightarrow> Inr (head 50 d))"

subsection \<open>The page\<close>

text \<open>
  What a run emits is a list of elements in the order of the calls. A column layout holds
  the relative widths and the elements of each column, left to right; an expander holds
  its label and its elements.
\<close>

datatype widget =
    PageConfig string string string
  | MarkdownHtml string
  | Markdown string
  | Warning string
  | Metric string string
  | Divider
  | Subheader string
  | Write string
  | Info string
  | Columns "rat list" "widget list list"
  | Expander string "widget list"
  | Dataframe dataframe string
  | Caption string

text \<open>
  A run ends at the last line (\<open>READY\<close>), at \<open>st.stop()\<close> (\<open>HALTED\<close>), or where
  an exception leaves the script (\<open>CRASHED\<close>).
\<close>

datatype outcome = READY | HALTED | CRASHED error

record page =
  out :: "widget list"
  outcome :: outcome

definition hero_html :: string where
  \<comment> \<open>the text at line 30\<close>
  \<open>hero_html =
     ''\<newline>''
     @ ''    <div style="padding: 0.6rem 0 0.2rem 0;">\<newline>''
     @ ''        <h1 style="margin-bottom: 0.2rem;">'' @ [CHR 0xF0, CHR 0x9F, CHR 0x8C, CHR 0x8D] @ '' Global Economy Dashboard</h1>\<newline>''
     @ ''        <p style="margin-top: 0; font-size: 1.05rem; color: #666;">\<newline>''
     @ ''            An interactive analytics suite built with <b>Python + Streamlit + Plotly</b> using\<newline>''
     @ ''            <b>World Bank World Development Indicators (WDI)</b>.\<newline>''
     @ ''        </p>\<newline>''
     @ ''    </div>\<newline>''
     @ ''    ''\<close>

definition about_text :: string where
  \<comment> \<open>the text at line 77\<close>
  \<open>about_text =
     ''\<newline>''
     @ ''This project is designed as a **portfolio-grade data product** that demonstrates:\<newline>''
     @ ''- **ETL pipeline** (API ingestion '' @ [CHR 0xE2, CHR 0x86, CHR 0x92] @ '' cleaning '' @ [CHR 0xE2, CHR 0x86, CHR 0x92] @ '' parquet)\<newline>''
     @ ''- **Exploratory analytics** (country trends, ranking, cross-indicator analysis)\<newline>''
     @ ''- **Interactive dashboards** (filters, KPIs, maps, downloads)\<newline>''
     @ ''- **Deployment readiness** (designed for Hugging Face Spaces or Streamlit hosting)\<newline>''
     @ ''\<newline>''
     @ ''The goal is to make global macroeconomic data easy to explore using modern, interactive visualization.\<newline>''\<close>

definition usage_text :: string where
  \<comment> \<open>the text at line 91\<close>
  \<open>usage_text =
     ''\<newline>''
     @ ''1. Use the **sidebar Pages** menu to switch dashboards.\<newline>''
     @ ''2. Apply filters (country, indicator, year).\<newline>''
     @ ''3. Use **Download CSV** when available to export slices.\<newline>''
     @ ''4. Compare countries via **rankings + maps** for fast insights.\<newline>''\<close>

definition macro_text :: string where
  \<comment> \<open>the text at line 112\<close>
  \<open>macro_text =
     ''\<newline>''
     @ ''**Purpose:** Explore a single country over time and compare indicators.\<newline>''
     @ ''\<newline>''
     @ ''**What you can do:**\<newline>''
     @ ''- Select a country + multiple indicators\<newline>''
     @ ''- View KPI snapshots (latest year)\<newline>''
     @ ''- Plot trends over time (line chart)\<newline>''
     @ ''- Compare indicators in a pivot table\<newline>''\<close>

definition cost_of_living_text :: string where
  \<comment> \<open>the text at line 125\<close>
  \<open>cost_of_living_text =
     ''\<newline>''
     @ ''**Purpose:** Analyze inflation impact and affordability proxies.\<newline>''
     @ ''\<newline>''
     @ ''**What you can do:**\<newline>''
     @ ''- Track inflation + related cost-of-living indicators\<newline>''
     @ ''- View affordability-style plots (e.g., inflation vs GDP per capita)\<newline>''
     @ ''- Highlight a country relative to others\<newline>''
     @ ''- Export filtered data\<newline>''\<close>

definition rankings_text :: string where
  \<comment> \<open>the text at line 139\<close>
  \<open>rankings_text =
     ''\<newline>''
     @ ''**Purpose:** Compare countries globally for any indicator in a selected year.\<newline>''
     @ ''\<newline>''
     @ ''**What you can do:**\<newline>''
     @ ''- Rank **Top / Bottom** countries by indicator and year\<newline>''
     @ ''- Visualize results on a full-width **world choropleth map**\<newline>''
     @ ''- Switch to log-scale for skewed indicators\<newline>''
     @ ''- Download indicator-year slices\<newline>''\<close>

definition health_index_text :: string where
  \<comment> \<open>the text at line 152\<close>
  \<open>health_index_text =
     ''\<newline>''
     @ ''**Purpose:** Build a composite economic '' @ [CHR 0xE2, CHR 0x80, CHR 0x9C] @ ''health'' @ [CHR 0xE2, CHR 0x80, CHR 0x9D] @ '' view.\<newline>''
     @ ''\<newline>''
     @ ''**What you can do:**\<newline>''
     @ ''- Compute an index from growth, inflation, unemployment\<newline>''
     @ ''- Normalize indicators (z-scores)\<newline>''
     @ ''- Adjust weights (if your page supports it)\<newline>''
     @ ''- Rank countries + visualize index on a world map\<newline>''\<close>

definition data_source_text :: string where
  \<comment> \<open>the text at line 171\<close>
  \<open>data_source_text =
     ''\<newline>''
     @ ''- **Source:** World Bank '' @ [CHR 0xE2, CHR 0x80, CHR 0x93] @ '' World Development Indicators (WDI)\<newline>''
     @ ''- **Access method:** World Bank Indicators API (via ETL script)\<newline>''
     @ ''- **Processing:** unified long-format table saved as a parquet file\<newline>''
     @ ''- **Limitations:** coverage varies by country/year; some indicators may be missing for specific years\<newline>''\<close>

definition warning_text :: "path \<Rightarrow> string" where
  \<comment> \<open>the f-string at lines 45 to 48\<close>
  \<open>warning_text data_path =
     ''Dataset not found at: '' @ data_path @ ''\<newline>\<newline>''
     @ ''To generate it locally, run:\<newline>''
     @ [CHR 0xE2, CHR 0x80, CHR 0xA2] @ '' `python scripts/etl_worldbank.py`\<newline>\<newline>''
     @ ''Then re-run the app.''\<close>

definition years_text :: "int option \<Rightarrow> int option \<Rightarrow> string" where
  \<comment> \<open>the value of the Years metric, line 64\<close>
  "years_text ymin ymax =
     (case ymin of None \<Rightarrow> em_dash
      | Some y \<Rightarrow> str_int y @ '' '' @ arrow @ '' '' @ str_opt_int ymax)"

definition metrics :: "nat \<Rightarrow> pyval list \<Rightarrow> int option \<Rightarrow> int option \<Rightarrow> nat \<Rightarrow> widget" where
  \<comment> \<open>lines 61 to 65: four columns \<open>k1\<close> to \<open>k4\<close>, one metric in each\<close>
  "metrics n_countries inds ymin ymax n_rows =
     Columns [1, 1, 1, 1]
       [[Metric ''Countries'' (format_comma n_countries)],
        [Metric ''Indicators'' (format_comma (length inds))],
        [Metric ''Years'' (years_text ymin ymax)],
        [Metric ''Rows'' (format_comma n_rows)]]"

definition prose :: "widget list" where
  \<comment> \<open>lines 67 to 177: the static sections\<close>
  \<open>prose =
     [Divider,
      Columns [5 / 4, 1]
        [[Subheader ''What this project is about'', Write about_text],
         [Subheader ''How to use the app'', Markdown usage_text,
          Info ''Tip: Start with **Macro** for country trends, then use **Rankings & Map** for global context.'']],
      Divider,
      Subheader ''Dashboards inside this project'',
      Columns [1, 1]
        [[Markdown (''### '' @ [CHR 0xF0, CHR 0x9F, CHR 0x93, CHR 0x88] @ '' Macro Dashboard''),
          Write macro_text,
          Markdown (''### '' @ [CHR 0xF0, CHR 0x9F, CHR 0xA7, CHR 0xBA] @ '' Cost of Living & Affordability''),
          Write cost_of_living_text],
         [Markdown (''### '' @ [CHR 0xF0, CHR 0x9F, CHR 0x97, CHR 0xBA, CHR 0xEF, CHR 0xB8, CHR 0x8F] @ '' Global Rankings & Map''),
          Write rankings_text,
          Markdown (''### '' @ [CHR 0xF0, CHR 0x9F, CHR 0xA7, CHR 0xA0] @ '' Global Health Index''),
          Write health_index_text]],
      Divider,
      Subheader ''Data source & transparency'',
      Write data_source_text]\<close>

definition caption :: widget where
  "caption = Caption ''This dashboard is for informational purposes. Reported values depend on World Bank coverage and may be missing for some country-year combinations.''"

definition render :: "path \<Rightarrow> dataframe \<Rightarrow> page" where
  \<comment> \<open>lines 29 to 185, on the loaded table \<open>df\<close>\<close>
  "render data_path df =
     (let header = [MarkdownHtml hero_html] in
      if empty df then \<lparr>out = header @ [Warning (warning_text data_path)], outcome = HALTED\<rparr>
      else
        case year_min df of
          Inl e \<Rightarrow> \<lparr>out = header, outcome = CRASHED e\<rparr>
        | Inr ymin \<Rightarrow>
           (case year_max df of
              Inl e \<Rightarrow> \<lparr>out = header, outcome = CRASHED e\<rparr>
            | Inr ymax \<Rightarrow>
               (let body = header @ [metrics (countries df) (indicators df) ymin ymax (rows df)] @ prose in
                case preview df of
                  Inl e \<Rightarrow> \<lparr>out = body @ [Expander ''Show dataset preview'' []], outcome = CRASHED e\<rparr>
                | Inr d \<Rightarrow>
                    \<lparr>out = body @ [Expander ''Show dataset preview'' [Dataframe d ''stretch''], caption],
                     outcome = READY\<rparr>)))"

definition home :: "path \<Rightarrow> storage \<Rightarrow> process \<Rightarrow> page \<times> process" where
  \<comment> \<open>the whole script, run in the process state \<open>s\<close> with the script in \<open>BASE_DIR\<close>\<close>
  "home BASE_DIR fs s =
     (let config = PageConfig ''Global Economy Dashboard'' ''wide'' ''expanded'' in
      case cached_load_data fs s (DATA_PATH BASE_DIR) of
        (Inl e, s') \<Rightarrow> (\<lparr>out = [config], outcome = CRASHED e\<rparr>, s')
      | (Inr df, s') \<Rightarrow>
          (let pg = render (DATA_PATH BASE_DIR) df in (pg\<lparr>out := config # out pg\<rparr>, s')))"

subsection \<open>Notions used to state the properties\<close>

fun cells :: "column \<Rightarrow> pyval list" where
  \<comment> \<open>the values of a column, row by row\<close>
  "cells (StrCol xs) = map (\<lambda>x. case x of None \<Rightarrow> NoneV | Some v \<Rightarrow> StrV v) xs"
| "cells (IntCol xs) = map (\<lambda>x. case x of None \<Rightarrow> NoneV | Some v \<Rightarrow> IntV v) xs"
| "cells (NumCol xs) = map (\<lambda>x. case x of None \<Rightarrow> NoneV | Some v \<Rightarrow> NumV v) xs"

definition present :: "column \<Rightarrow> pyval set" where
  \<comment> \<open>the values of a column that are not missing\<close>
  "present s = set (cells s) - {NoneV}"

definition well_formed :: "dataframe \<Rightarrow> bool" where
  \<comment> \<open>labels are distinct and every column has one cell for each row of the index\<close>
  "well_formed df \<longleftrightarrow>
     distinct (columns df) \<and> list_all (\<lambda>nc. length (cells (snd nc)) = nrows df) (cols df)"

definition cell :: "dataframe \<Rightarrow> nat \<Rightarrow> string \<Rightarrow> pyval option" where
  \<comment> \<open>the value in row \<open>i\<close> of the column labelled \<open>c\<close>, if there is such a column\<close>
  "cell df i c = map_option (\<lambda>s. cells s ! i) (map_of (cols df) c)"

fun pyval_le :: "pyval \<Rightarrow> pyval \<Rightarrow> bool" where
  \<comment> \<open>Python's \<open><=\<close> on two values of one column\<close>
  "pyval_le (StrV a) (StrV b) = (a \<le> b)"
| "pyval_le (IntV a) (IntV b) = (a \<le> b)"
| "pyval_le (NumV a) (NumV b) = (a \<le> b)"
| "pyval_le _ _ = False"

fun mask_col :: "bool list \<Rightarrow> column \<Rightarrow> column" where
  \<comment> \<open>the cells of a column at the rows where the mask holds\<close>
  "mask_col m (StrCol xs) = StrCol (map snd (filter fst (zip m xs)))"
| "mask_col m (IntCol xs) = IntCol (map snd (filter fst (zip m xs)))"
| "mask_col m (NumCol xs) = NumCol (map snd (filter fst (zip m xs)))"

definition notna :: "column \<Rightarrow> bool list" where
  "notna s = map (\<lambda>v. v \<noteq> NoneV) (cells s)"

definition drop_rows_missing :: "string \<Rightarrow> dataframe \<Rightarrow> dataframe" where
  \<comment> \<open>the table without the rows whose value in column \<open>c\<close> is missing\<close>
  "drop_rows_missing c df =
     (case map_of (cols df) c of
        None \<Rightarrow> df
      | Some s \<Rightarrow>
          \<lparr>nrows = length (filter id (notna s)),
           cols = map (\<lambda>nc. (fst nc, mask_col (notna s) (snd nc))) (cols df)\<rparr>)"

definition missing_rows :: "string \<Rightarrow> dataframe \<Rightarrow> nat" where
  \<comment> \<open>the number of rows whose value in column \<open>c\<close> is missing\<close>
  "missing_rows c df =
     (case map_of (cols df) c of None \<Rightarrow> 0 | Some s \<Rightarrow> length (filter (\<lambda>v. v = NoneV) (cells s)))"

fun calls :: "(storage \<times> path) list \<Rightarrow> process \<Rightarrow> process" where
  \<comment> \<open>the process state after a sequence of loads, each on the storage of its moment\<close>
  "calls [] s = s"
| "calls ((fs, p) # cs) s = calls cs (snd (cached_load_data fs s p))"

definition example_table :: dataframe where
  "example_table =
     \<lparr>nrows = 3,
      cols = [(''country_code'', StrCol [Some ''US'', Some ''US'', Some ''FR'']),
              (''indicator_name'', StrCol [Some ''GDP'', Some ''Inflation'', Some ''GDP''])]\<rparr>"

definition years_table :: dataframe where
  "years_table =
     \<lparr>nrows = 3,
      cols = [(''value'', NumCol [Some (Finite (3 / 2)), None, Some (Finite 7)]),
              (''year'', IntCol [Some 2021, None, Some 1999])]\<rparr>"

definition long_table :: dataframe where
  \<comment> \<open>sixty rows, numbered in file order\<close>
  "long_table =
     \<lparr>nrows = 60,
      cols = [(''id'', IntCol (map (\<lambda>i. Some (int i)) [0..<60])),
              (''year'', IntCol (map (\<lambda>i. Some (1990 + int i)) [0..<60]))]\<rparr>"


definition zero_rows_table :: dataframe where
  \<comment> \<open>a file with the columns of the schema and no row\<close>
  "zero_rows_table =
     \<lparr>nrows = 0,
      cols = [(''country'', StrCol []), (''country_code'', StrCol []), (''year'', IntCol []),
              (''indicator_name'', StrCol []), (''value'', NumCol []), (''source'', StrCol [])]\<rparr>"

definition gaps_table :: dataframe where
  \<comment> \<open>four rows, some with a missing country code or indicator name\<close>
  "gaps_table =
     \<lparr>nrows = 4,
      cols = [(''country_code'', StrCol [Some ''US'', None, Some ''FR'', Some ''US'']),
              (''indicator_name'', StrCol [Some ''GDP'', Some ''GDP'', None, None])]\<rparr>"





definition nan_years_table :: dataframe where
  \<comment> \<open>two rows, whose years are NaN\<close>
  "nan_years_table =
     \<lparr>nrows = 2,
      cols = [(''country_code'', StrCol [Some ''US'', Some ''FR'']), (''year'', NumCol [None, None])]\<rparr>"

subsection \<open>Facts about the operations\<close>

lemma set_unique: "set (unique xs) = set xs"
  by (induction xs rule: unique.induct) auto

lemma distinct_unique: "distinct (unique xs)"
  by (induction xs rule: unique.induct) (auto simp: set_unique)

lemma length_unique: "length (unique xs) = card (set xs)"
  using distinct_card[OF distinct_unique, of xs] by (simp add: set_unique)

lemma set_dropna: "set (dropna xs) = {v. Some v \<in> set xs}"
  by (induction xs) (auto simp: dropna_def split: option.splits)

lemma set_cells_present:
  assumes "\<And>v. f v \<noteq> NoneV"
  shows "set (map (\<lambda>x. case x of None \<Rightarrow> NoneV | Some v \<Rightarrow> f v) xs) - {NoneV} = f ` set (dropna xs)"
proof (intro set_eqI iffI)
  fix y assume "y \<in> set (map (\<lambda>x. case x of None \<Rightarrow> NoneV | Some v \<Rightarrow> f v) xs) - {NoneV}"
  then obtain x where x: "x \<in> set xs" "y = (case x of None \<Rightarrow> NoneV | Some v \<Rightarrow> f v)" "y \<noteq> NoneV"
    by auto
  from x(2,3) obtain v where "x = Some v" by (cases x) simp_all
  with x show "y \<in> f ` set (dropna xs)" by (auto simp: set_dropna)
next
  fix y assume "y \<in> f ` set (dropna xs)"
  then obtain v where v: "Some v \<in> set xs" "y = f v" by (auto simp: set_dropna)
  then have "y \<in> set (map (\<lambda>x. case x of None \<Rightarrow> NoneV | Some v \<Rightarrow> f v) xs)"
    by (auto simp: image_iff intro!: bexI[of _ "Some v"])
  with v assms show "y \<in> set (map (\<lambda>x. case x of None \<Rightarrow> NoneV | Some v \<Rightarrow> f v) xs) - {NoneV}"
    by simp
qed

lemma present_StrCol: "present (StrCol xs) = StrV ` set (dropna xs)"
  unfolding present_def cells.simps by (rule set_cells_present) simp

lemma present_IntCol: "present (IntCol xs) = IntV ` set (dropna xs)"
  unfolding present_def cells.simps by (rule set_cells_present) simp

lemma present_NumCol: "present (NumCol xs) = NumV ` set (dropna xs)"
  unfolding present_def cells.simps by (rule set_cells_present) simp

lemma nunique_card: "nunique s = card (present s)"
  by (cases s) (simp_all add: present_StrCol present_IntCol present_NumCol length_unique card_image inj_on_def)

lemma set_sorted_unique: "set (sorted_unique s) = present s"
  by (cases s) (simp_all add: present_StrCol present_IntCol present_NumCol set_unique)

lemma distinct_sorted_unique: "distinct (sorted_unique s)"
  by (cases s) (simp_all add: distinct_map inj_on_def distinct_unique)

lemma sorted_wrt_map_le:
  assumes "sorted ys" "\<And>a b. a \<le> b \<Longrightarrow> pyval_le (f a) (f b)"
  shows "sorted_wrt pyval_le (map f ys)"
  using assms by (induction ys) auto

lemma sorted_sorted_unique: "sorted_wrt pyval_le (sorted_unique s)"
  by (cases s) (simp_all add: sorted_wrt_map_le)

lemma getitem_Inl_iff: "(\<exists>e. getitem df c = Inl e) \<longleftrightarrow> c \<notin> set (columns df)"
  by (auto simp: getitem_def columns_def map_of_eq_None_iff split: option.splits dest: map_of_SomeD intro: rev_image_eqI)

lemma getitem_absent: "c \<notin> set (columns df) \<Longrightarrow> getitem df c = Inl KeyError"
  using getitem_Inl_iff[of df c] by (auto simp: getitem_def split: option.splits)

lemma show_cols_subset: "c \<in> set (show_cols df) \<Longrightarrow> c \<in> set (columns df)"
  unfolding show_cols_def set_filter by blast

lemma getitem_list_show_cols:
  "getitem_list df (show_cols df) =
     Inr (df\<lparr>cols := concat (map (\<lambda>c. filter (\<lambda>nc. fst nc = c) (cols df)) (show_cols df))\<rparr>)"
  unfolding getitem_list_def using show_cols_subset[of _ df] by simp

lemma preview_eq:
  "preview df = Inr (head 50 (df\<lparr>cols := concat (map (\<lambda>c. filter (\<lambda>nc. fst nc = c) (cols df)) (show_cols df))\<rparr>))"
  by (simp add: preview_def getitem_list_show_cols)

lemma render_ready:
  assumes "\<not> empty df" "year_min df = Inr ymin" "year_max df = Inr ymax" "preview df = Inr d"
  shows "render p df =
     \<lparr>out = [MarkdownHtml hero_html, metrics (countries df) (indicators df) ymin ymax (rows df)] @ prose
             @ [Expander ''Show dataset preview'' [Dataframe d ''stretch''], caption],
      outcome = READY\<rparr>"
  using assms by (simp add: render_def)

lemma render_READY_D:
  assumes "outcome (render p df) = READY"
  shows "\<not> empty df \<and> (\<exists>ymin ymax. year_min df = Inr ymin \<and> year_max df = Inr ymax)"
proof -
  have ne: "\<not> empty df"
    using assms by (auto simp: render_def)
  obtain ymin where a: "year_min df = Inr ymin"
    using assms ne by (cases "year_min df") (auto simp: render_def)
  obtain ymax where b: "year_max df = Inr ymax"
    using assms ne a by (cases "year_max df") (auto simp: render_def)
  from ne a b show ?thesis by blast
qed

lemma render_READY_metrics:
  assumes "outcome (render p df) = READY"
  shows "\<exists>ymin ymax. year_min df = Inr ymin \<and> year_max df = Inr ymax
           \<and> out (render p df) ! 1 = metrics (countries df) (indicators df) ymin ymax (rows df)"
proof -
  from render_READY_D[OF assms] obtain ymin ymax
    where h: "\<not> empty df" "year_min df = Inr ymin" "year_max df = Inr ymax" by blast
  have "out (render p df) ! 1 = metrics (countries df) (indicators df) ymin ymax (rows df)"
    by (simp add: render_ready[OF h preview_eq])
  with h show ?thesis by blast
qed

lemma well_formed_length:
  assumes "well_formed df" "getitem df c = Inr s"
  shows "length (cells s) = nrows df"
proof -
  from assms(2) have "map_of (cols df) c = Some s"
    by (auto simp: getitem_def split: option.splits)
  then have "(c, s) \<in> set (cols df)" by (rule map_of_SomeD)
  with assms(1) show ?thesis
    by (auto simp: well_formed_def list_all_iff)
qed

lemma card_present_le: "card (present s) \<le> length (cells s)"
proof -
  have "card (present s) \<le> card (set (cells s))"
    unfolding present_def by (rule card_mono) auto
  also have "\<dots> \<le> length (cells s)" by (rule card_length)
  finally show ?thesis .
qed

lemma countries_eq:
  "countries df = (case getitem df ''country_code'' of Inr s \<Rightarrow> card (present s) | Inl e \<Rightarrow> 0)"
  by (simp add: countries_def nunique_card split: sum.splits)

lemma indicators_set:
  "set (indicators df) = (case getitem df ''indicator_name'' of Inr s \<Rightarrow> present s | Inl e \<Rightarrow> {})"
  by (simp add: indicators_def set_sorted_unique split: sum.splits)

lemma indicators_distinct: "distinct (indicators df)"
  by (simp add: indicators_def distinct_sorted_unique split: sum.splits)

lemma indicators_sorted: "sorted_wrt pyval_le (indicators df)"
  by (simp add: indicators_def sorted_sorted_unique split: sum.splits)

lemma format_comma_0: "format_comma 0 = ''0''"
  by (simp add: format_comma.simps str_nat.simps digit_def)

lemma countries_example: "countries example_table = 2"
  by (simp add: countries_def getitem_def example_table_def dropna_def)

lemma indicators_example: "indicators example_table = [StrV ''GDP'', StrV ''Inflation'']"
  by (simp add: indicators_def getitem_def example_table_def dropna_def)

lemma year_absent:
  assumes "''year'' \<notin> set (columns df)"
  shows "year_min df = Inr None" "year_max df = Inr None"
  using getitem_absent[OF assms] by (simp_all add: year_min_def year_max_def)

lemma columns_example: "columns example_table = [''country_code'', ''indicator_name'']"
  by (simp add: columns_def example_table_def)

lemma not_empty_example: "\<not> empty example_table"
  by (simp add: empty_def example_table_def)

lemma render_example_READY: "outcome (render p example_table) = READY"
proof -
  have y: "''year'' \<notin> set (columns example_table)" by (simp add: columns_example)
  show ?thesis
    by (simp add: render_ready[OF not_empty_example year_absent[OF y] preview_eq])
qed

lemma well_formed_example: "well_formed example_table"
  by (simp add: well_formed_def columns_example) (simp add: example_table_def)

lemma filter_label_distinct:
  assumes "distinct (map fst kvs)" "(c, s) \<in> set kvs"
  shows "filter (\<lambda>nc. fst nc = c) kvs = [(c, s)]"
  using assms
proof (induction kvs)
  case Nil
  then show ?case by simp
next
  case (Cons kv kvs)
  show ?case
  proof (cases "kv = (c, s)")
    case True
    with Cons.prems(1) have "\<forall>nc \<in> set kvs. fst nc \<noteq> c" by force
    then have "filter (\<lambda>nc. fst nc = c) kvs = []" by (simp add: filter_empty_conv)
    with True show ?thesis by simp
  next
    case False
    with Cons.prems have m: "(c, s) \<in> set kvs" by simp
    then have "c \<in> fst ` set kvs" by force
    with Cons.prems(1) have "fst kv \<noteq> c" by auto
    moreover have "filter (\<lambda>nc. fst nc = c) kvs = [(c, s)]"
      using Cons.IH[OF _ m] Cons.prems(1) by simp
    ultimately show ?thesis by simp
  qed
qed

lemma select_distinct:
  assumes "distinct (map fst kvs)" "set labels \<subseteq> fst ` set kvs"
  shows "concat (map (\<lambda>c. filter (\<lambda>nc. fst nc = c) kvs) labels)
           = map (\<lambda>c. (c, the (map_of kvs c))) labels"
  using assms(2)
proof (induction labels)
  case Nil
  then show ?case by simp
next
  case (Cons c labels)
  from Cons.prems obtain s where m: "(c, s) \<in> set kvs" by force
  with assms(1) have "map_of kvs c = Some s" by simp
  with filter_label_distinct[OF assms(1) m] Cons show ?case by simp
qed

lemma show_cols_image: "set (show_cols df) \<subseteq> fst ` set (cols df)"
  using show_cols_subset[of _ df] by (auto simp: columns_def)

lemma preview_cols:
  assumes "distinct (columns df)"
  shows "preview df =
     Inr \<lparr>nrows = min 50 (nrows df),
          cols = map (\<lambda>c. (c, head_col 50 (the (map_of (cols df) c)))) (show_cols df)\<rparr>"
  using select_distinct[OF assms[unfolded columns_def] show_cols_image]
  by (simp add: preview_eq head_def comp_def)

lemma cells_head_col: "cells (head_col n s) = take n (cells s)"
  by (cases s) (simp_all add: take_map)

lemma distinct_show_cols: "distinct (show_cols df)"
  by (simp add: show_cols_def)

lemma preview_columns: "distinct (columns df) \<Longrightarrow> columns (projr (preview df)) = show_cols df"
  by (simp add: preview_cols columns_def comp_def)

lemma getitem_the:
  assumes "c \<in> set (columns df)"
  shows "(c, the (map_of (cols df) c)) \<in> set (cols df)"
proof -
  from assms obtain s where "map_of (cols df) c = Some s"
    by (cases "map_of (cols df) c") (auto simp: columns_def map_of_eq_None_iff)
  then show ?thesis using map_of_SomeD[of "cols df" c] by simp
qed

lemma preview_well_formed:
  assumes "well_formed df"
  shows "well_formed (projr (preview df))"
proof -
  from assms have d: "distinct (columns df)" by (simp add: well_formed_def)
  have len: "length (cells (head_col 50 (the (map_of (cols df) c)))) = min 50 (nrows df)"
    if "c \<in> set (show_cols df)" for c
  proof -
    from getitem_the[OF show_cols_subset[OF that]] assms
    have "length (cells (the (map_of (cols df) c))) = nrows df"
      by (auto simp: well_formed_def list_all_iff)
    then show ?thesis by (simp add: cells_head_col min.commute)
  qed
  show ?thesis
    unfolding well_formed_def preview_columns[OF d]
    using len by (simp add: preview_cols[OF d] distinct_show_cols list_all_iff)
qed

lemma preview_cell:
  assumes "distinct (columns df)" "c \<in> set (show_cols df)" "i < 50"
  shows "cell (projr (preview df)) i c = cell df i c"
proof -
  from show_cols_subset[OF assms(2)] obtain s where m: "map_of (cols df) c = Some s"
    by (cases "map_of (cols df) c") (auto simp: columns_def map_of_eq_None_iff)
  have "map_of (map (\<lambda>c. (c, head_col 50 (the (map_of (cols df) c)))) (show_cols df)) c
          = Some (head_col 50 s)"
    using assms(2) m by (simp add: map_of_map_restrict)
  then have "cell (projr (preview df)) i c = Some (cells (head_col 50 s) ! i)"
    by (simp add: cell_def preview_cols[OF assms(1)])
  also have "\<dots> = Some (cells s ! i)"
    using assms(3) by (simp add: cells_head_col)
  also have "\<dots> = cell df i c"
    using m by (simp add: cell_def)
  finally show ?thesis .
qed

lemma well_formed_long: "well_formed long_table"
  by (simp add: well_formed_def columns_def long_table_def)

lemma int_min_IntCol:
  assumes "dropna xs \<noteq> []"
  shows "int_min (IntCol xs) = Inr (Min (set (dropna xs)))"
proof -
  from assms obtain v vs where d: "dropna xs = v # vs" by (cases "dropna xs") auto
  then show ?thesis by (simp add: Min.set_eq_fold[symmetric])
qed

lemma int_max_IntCol:
  assumes "dropna xs \<noteq> []"
  shows "int_max (IntCol xs) = Inr (Max (set (dropna xs)))"
proof -
  from assms obtain v vs where d: "dropna xs = v # vs" by (cases "dropna xs") auto
  then show ?thesis by (simp add: Max.set_eq_fold[symmetric])
qed



lemma render_year_missing:
  assumes "\<not> empty df" "getitem df ''year'' = Inr s" "int_min s = Inl e"
  shows "render p df = \<lparr>out = [MarkdownHtml hero_html], outcome = CRASHED e\<rparr>"
  using assms by (simp add: render_def year_min_def)





lemma cached_load_hit:
  assumes "cache s p = Some df"
  shows "cached_load_data fs s p = (Inr df, s)"
  using assms by (simp add: cached_load_data_def)

lemma cached_load_keeps:
  assumes "cache s p = Some df"
  shows "cache (snd (cached_load_data fs s q)) p = Some df"
proof (cases "cache s q")
  case (Some d)
  with assms show ?thesis by (simp add: cached_load_data_def)
next
  case None
  then have "q \<noteq> p" using assms by auto
  with None assms show ?thesis
    by (cases "load_data fs q") (auto simp: cached_load_data_def split: sum.splits)
qed

lemma calls_keeps:
  assumes "cache s p = Some df"
  shows "cache (calls cs s) p = Some df"
  using assms
proof (induction cs arbitrary: s)
  case Nil
  then show ?case by simp
next
  case (Cons c cs)
  obtain fs q where c: "c = (fs, q)" by (cases c)
  from Cons.IH[OF cached_load_keeps[OF Cons.prems]] show ?case by (simp add: c)
qed

lemma cached_load_stores:
  assumes "cached_load_data fs s p = (Inr df, s1)"
  shows "cache s1 p = Some df"
proof (cases "cache s p")
  case (Some d)
  with assms show ?thesis by (auto simp: cached_load_data_def)
next
  case None
  with assms show ?thesis
    by (cases "load_data fs p") (auto simp: cached_load_data_def split: sum.splits)
qed

lemma home_loaded:
  assumes "cached_load_data fs s (DATA_PATH b) = (Inr d, s')"
  shows "fst (home b fs s) =
           (render (DATA_PATH b) d)
             \<lparr>out := PageConfig ''Global Economy Dashboard'' ''wide'' ''expanded''
                      # out (render (DATA_PATH b) d)\<rparr>"
  using assms by (simp add: home_def Let_def)

lemma cached_load_cold:
  assumes "cache s p = None" "fst (load_data fs p) = Inr d"
  shows "\<exists>s'. cached_load_data fs s p = (Inr d, s')"
  using assms by (cases "load_data fs p") (simp add: cached_load_data_def)

lemma render_empty_eq:
  assumes "empty d" "empty d'"
  shows "render p d = render p d'"
  using assms by (simp add: render_def)

lemma DATA_PATH_app: "DATA_PATH ''/app'' = ''/app/data/processed/econ_option_a.parquet''"
  by (simp add: DATA_PATH_def joinpath_def)

lemma mask_self: "map snd (filter fst (zip (map P xs) xs)) = filter P xs"
  by (induction xs) auto

lemma dropna_filter: "dropna (filter (\<lambda>x. x \<noteq> None) xs) = dropna xs"
  by (induction xs) (auto simp: dropna_def)

lemma notna_cols:
  "notna (StrCol xs) = map (\<lambda>x. x \<noteq> None) xs"
  "notna (IntCol ys) = map (\<lambda>x. x \<noteq> None) ys"
  "notna (NumCol zs) = map (\<lambda>x. x \<noteq> None) zs"
  by (auto simp: notna_def split: option.splits)

lemma dropna_mask: 
  "dropna (map snd (filter fst (zip (map (\<lambda>x. x \<noteq> None) xs) xs))) = dropna xs"
  by (simp only: mask_self dropna_filter)

lemma nunique_mask: "nunique (mask_col (notna s) s) = nunique s"
  by (cases s) (simp_all only: notna_cols mask_col.simps nunique.simps dropna_mask)

lemma sorted_unique_mask: "sorted_unique (mask_col (notna s) s) = sorted_unique s"
  by (cases s) (simp_all only: notna_cols mask_col.simps sorted_unique.simps dropna_mask)

lemma map_of_map_snd:
  "map_of (map (\<lambda>nc. (fst nc, f (snd nc))) kvs) c = map_option f (map_of kvs c)"
  by (induction kvs) auto

lemma getitem_drop:
  assumes "getitem df c = Inr s"
  shows "getitem (drop_rows_missing c df) c = Inr (mask_col (notna s) s)"
proof -
  from assms have m: "map_of (cols df) c = Some s"
    by (auto simp: getitem_def split: option.splits)
  then show ?thesis
    by (simp add: getitem_def drop_rows_missing_def map_of_map_snd)
qed

lemma drop_absent:
  assumes "getitem df c = Inl e"
  shows "drop_rows_missing c df = df"
  using assms by (auto simp: getitem_def drop_rows_missing_def split: option.splits)

lemma length_notna:
  "length (filter id (notna s)) + length (filter (\<lambda>v. v = NoneV) (cells s)) = length (cells s)"
proof -
  have "length (filter id (notna s)) = length (filter (\<lambda>v. v \<noteq> NoneV) (cells s))"
    by (simp add: notna_def filter_map comp_def)
  then show ?thesis
    using sum_length_filter_compl[of "\<lambda>v. v \<noteq> NoneV" "cells s"] by simp
qed

lemma NoneV_notin_sorted_unique: "NoneV \<notin> set (sorted_unique s)"
  by (cases s) auto

lemma well_formed_gaps: "well_formed gaps_table"
  by (simp add: well_formed_def columns_def gaps_table_def)






lemma render_page:
  assumes "\<not> empty df" "year_min df = Inr ymin" "year_max df = Inr ymax"
  shows "outcome (render p df) = READY"
    and "\<exists>before. out (render p df) =
           before @ [Expander ''Show dataset preview'' [Dataframe (projr (preview df)) ''stretch''], caption]"
proof -
  note r = render_ready[OF assms preview_eq, of p]
  show "outcome (render p df) = READY" by (simp add: r)
  have "out (render p df) =
          ([MarkdownHtml hero_html, metrics (countries df) (indicators df) ymin ymax (rows df)] @ prose)
          @ [Expander ''Show dataset preview'' [Dataframe (projr (preview df)) ''stretch''], caption]"
    by (simp add: r preview_eq)
  then show "\<exists>before. out (render p df) =
           before @ [Expander ''Show dataset preview'' [Dataframe (projr (preview df)) ''stretch''], caption]"
    by blast
qed

lemma dropna_nonempty: "Some v \<in> set xs \<Longrightarrow> dropna xs \<noteq> []"
  using set_dropna[of xs] by (cases "dropna xs") auto






lemma year_bounds_long:
  "\<exists>lo hi. year_min long_table = Inr (Some lo) \<and> year_max long_table = Inr (Some hi)"
proof -
  let ?xs = "map (\<lambda>i. Some (1990 + int i)) [0..<60]"
  have g: "getitem long_table ''year'' = Inr (IntCol ?xs)"
    by (simp add: getitem_def long_table_def)
  have "Some 1990 \<in> set ?xs"
    by (auto simp: image_iff intro!: bexI[of _ 0])
  then have n: "dropna ?xs \<noteq> []" by (rule dropna_nonempty)
  show ?thesis
    unfolding year_min_def year_max_def g
    by (simp only: int_min_IntCol[OF n] int_max_IntCol[OF n] sum.case) blast
qed

lemma not_empty_long: "\<not> empty long_table"
  by (simp add: empty_def long_table_def)

section \<open>Properties\<close>

text \<open>
  C1, as the code has it. For every path at which the check for a file answers that there
  is none, the body of \<open>load_data\<close> returns the empty table: it raises no error, and it
  reads nothing. The memoised loader returns the empty table too, provided the process has
  no table cached for the path.
\<close>

theorem load_data_missing_file:
  assumes "fs p = None"
  shows "fst (load_data fs p) = Inr DataFrame \<and> empty DataFrame
         \<and> snd (load_data fs p) = [Exists p]
         \<and> (cache s p = None \<longrightarrow> fst (cached_load_data fs s p) = Inr DataFrame)"
  using assms by (simp add: load_data_def cached_load_data_def empty_def DataFrame_def)

theorem load_data_missing_file_witness:
  "(Map.empty :: storage) ''/app/data/processed/econ_option_a.parquet'' = None
   \<and> fst (load_data Map.empty ''/app/data/processed/econ_option_a.parquet'') = Inr DataFrame
   \<and> empty DataFrame
   \<and> snd (load_data Map.empty ''/app/data/processed/econ_option_a.parquet'')
       = [Exists ''/app/data/processed/econ_option_a.parquet'']
   \<and> fst (cached_load_data Map.empty \<lparr>cache = Map.empty, trace = []\<rparr>
              ''/app/data/processed/econ_option_a.parquet'') = Inr DataFrame"
  using load_data_missing_file [of Map.empty "''/app/data/processed/econ_option_a.parquet''"
          "\<lparr>cache = Map.empty, trace = []\<rparr>"]
  by simp

text \<open>
  C1 as the specification states it fails in two ways. A path whose file was loaded and
  then deleted references no file, and the memoised loader still returns the table it has
  cached, which is not empty. And where the check for a file itself fails, as on a name too
  long to be a file's, the loader raises \<open>OSError\<close>.
\<close>

theorem load_data_missing_file_counterexample:
  "(Map.empty :: storage) ''f'' = None
   \<and> fst (cached_load_data Map.empty
            (snd (cached_load_data [''f'' \<mapsto> Parquet example_table] \<lparr>cache = Map.empty, trace = []\<rparr> ''f''))
            ''f'') = Inr example_table
   \<and> \<not> empty example_table
   \<and> fst (load_data [''f'' \<mapsto> StatError] ''f'') = Inl OSError
   \<and> fst (cached_load_data [''f'' \<mapsto> StatError] \<lparr>cache = Map.empty, trace = []\<rparr> ''f'') = Inl OSError"
  by (simp add: cached_load_data_def load_data_def not_empty_example)

text \<open>
  C2. On an empty table the page shows the header and one warning, and stops there: the
  output holds no metric, no prose section and no preview. The warning names the expected
  data path and the command that produces the file.
\<close>

theorem render_empty_halts:
  assumes "empty df"
  shows "render p df = \<lparr>out = [MarkdownHtml hero_html, Warning (warning_text p)], outcome = HALTED\<rparr>
         \<and> (\<exists>a b. warning_text p = a @ p @ b)
         \<and> (\<exists>a b. warning_text p = a @ ''python scripts/etl_worldbank.py'' @ b)"
proof (intro conjI)
  show "render p df = \<lparr>out = [MarkdownHtml hero_html, Warning (warning_text p)], outcome = HALTED\<rparr>"
    using assms by (simp add: render_def)
  show "\<exists>a b. warning_text p = a @ p @ b"
    unfolding warning_text_def by blast
  have "warning_text p =
          (''Dataset not found at: '' @ p @ ''\<newline>\<newline>To generate it locally, run:\<newline>''
             @ [CHR 0xE2, CHR 0x80, CHR 0xA2] @ '' `'')
          @ ''python scripts/etl_worldbank.py'' @ ''`\<newline>\<newline>Then re-run the app.''"
    by (simp add: warning_text_def)
  then show "\<exists>a b. warning_text p = a @ ''python scripts/etl_worldbank.py'' @ b"
    by blast
qed

theorem render_empty_halts_witness:
  "empty DataFrame
   \<and> render ''/app/data/processed/econ_option_a.parquet'' DataFrame
       = \<lparr>out = [MarkdownHtml hero_html, Warning (warning_text ''/app/data/processed/econ_option_a.parquet'')],
          outcome = HALTED\<rparr>"
proof -
  have e: "empty DataFrame" by (simp add: empty_def DataFrame_def)
  from render_empty_halts [OF e, of "''/app/data/processed/econ_option_a.parquet''"] e
  show ?thesis by blast
qed

text \<open>
  C3. The Countries statistic is the number of distinct values of the \<open>country_code\<close>
  column that are not missing, each counted once however many rows carry it, and it is zero
  when the table has no such column. It never exceeds the row count, and a page that is
  rendered shows it, grouped in thousands, as the first metric.
\<close>

theorem countries_metric_distinct:
  "countries df = (case getitem df ''country_code'' of Inr s \<Rightarrow> card (present s) | Inl e \<Rightarrow> 0)
   \<and> (''country_code'' \<notin> set (columns df) \<longrightarrow>
        countries df = 0 \<and> format_comma (countries df) = ''0'')
   \<and> (well_formed df \<longrightarrow> countries df \<le> rows df)
   \<and> (outcome (render p df) = READY \<longrightarrow>
        (\<exists>k2 k3 k4. out (render p df) ! 1 =
           Columns [1, 1, 1, 1] [[Metric ''Countries'' (format_comma (countries df))], k2, k3, k4]))"
proof (intro conjI impI)
  show "countries df = (case getitem df ''country_code'' of Inr s \<Rightarrow> card (present s) | Inl e \<Rightarrow> 0)"
    by (rule countries_eq)
  show z: "countries df = 0" if "''country_code'' \<notin> set (columns df)"
    using getitem_absent[OF that] by (simp add: countries_def)
  show "format_comma (countries df) = ''0''" if "''country_code'' \<notin> set (columns df)"
    by (simp add: z[OF that] format_comma_0)
  show "countries df \<le> rows df" if wf: "well_formed df"
  proof (cases "getitem df ''country_code''")
    case (Inl e)
    then show ?thesis by (simp add: countries_def)
  next
    case (Inr s)
    have "countries df = card (present s)" using Inr by (simp add: countries_eq)
    also have "\<dots> \<le> length (cells s)" by (rule card_present_le)
    also have "\<dots> = rows df" using well_formed_length[OF wf Inr] by (simp add: rows_def len_def)
    finally show ?thesis .
  qed
  show "\<exists>k2 k3 k4. out (render p df) ! 1 =
           Columns [1, 1, 1, 1] [[Metric ''Countries'' (format_comma (countries df))], k2, k3, k4]"
    if "outcome (render p df) = READY"
    using render_READY_metrics[OF that] by (auto simp: metrics_def)
qed

theorem countries_metric_distinct_witness:
  "well_formed example_table \<and> outcome (render ''p'' example_table) = READY
   \<and> countries example_table = 2 \<and> rows example_table = 3
   \<and> (\<exists>k2 k3 k4. out (render ''p'' example_table) ! 1 =
         Columns [1, 1, 1, 1] [[Metric ''Countries'' ''2''], k2, k3, k4])
   \<and> ''country_code'' \<notin> set (columns years_table) \<and> countries years_table = 0"
proof -
  have a: "''country_code'' \<notin> set (columns years_table)"
    by (simp add: columns_def years_table_def)
  have r: "rows example_table = 3" by (simp add: rows_def len_def example_table_def)
  have f: "format_comma 2 = ''2''" by (simp add: format_comma.simps str_nat.simps digit_def)
  from countries_metric_distinct[of example_table "''p''"] countries_metric_distinct[of years_table "''p''"]
    well_formed_example render_example_READY[of "''p''"] countries_example a r f
  show ?thesis by simp
qed

text \<open>
  C4. The derived indicator list holds exactly the values of the \<open>indicator_name\<close>
  column that are not missing, each once and in ascending order (it is empty when the table
  has no such column), and the Indicators metric of a rendered page is its length. On the
  table with country codes US, US, FR and indicator names GDP, Inflation, GDP the page shows
  Countries = 2 and Indicators = 2.
\<close>

theorem indicators_metric_sorted_distinct:
  "distinct (indicators df) \<and> sorted_wrt pyval_le (indicators df)
   \<and> set (indicators df) = (case getitem df ''indicator_name'' of Inr s \<Rightarrow> present s | Inl e \<Rightarrow> {})
   \<and> length (indicators df) = card (case getitem df ''indicator_name'' of Inr s \<Rightarrow> present s | Inl e \<Rightarrow> {})
   \<and> (outcome (render p df) = READY \<longrightarrow>
        (\<exists>k1 k3 k4. out (render p df) ! 1 =
           Columns [1, 1, 1, 1] [k1, [Metric ''Indicators'' (format_comma (length (indicators df)))], k3, k4]))
   \<and> outcome (render p example_table) = READY
   \<and> out (render p example_table) ! 1 =
         Columns [1, 1, 1, 1]
           [[Metric ''Countries'' ''2''], [Metric ''Indicators'' ''2''],
            [Metric ''Years'' em_dash], [Metric ''Rows'' ''3'']]"
proof (intro conjI impI)
  show d: "distinct (indicators df)" by (rule indicators_distinct)
  show "sorted_wrt pyval_le (indicators df)" by (rule indicators_sorted)
  show s: "set (indicators df) = (case getitem df ''indicator_name'' of Inr s \<Rightarrow> present s | Inl e \<Rightarrow> {})"
    by (rule indicators_set)
  show "length (indicators df) = card (case getitem df ''indicator_name'' of Inr s \<Rightarrow> present s | Inl e \<Rightarrow> {})"
    using distinct_card[OF d] s by simp
  show "\<exists>k1 k3 k4. out (render p df) ! 1 =
           Columns [1, 1, 1, 1] [k1, [Metric ''Indicators'' (format_comma (length (indicators df)))], k3, k4]"
    if "outcome (render p df) = READY"
    using render_READY_metrics[OF that] by (auto simp: metrics_def)
  show "outcome (render p example_table) = READY" by (rule render_example_READY)
  have y: "''year'' \<notin> set (columns example_table)" by (simp add: columns_example)
  have f2: "format_comma 2 = ''2''" and f3: "format_comma 3 = ''3''"
    by (simp_all add: format_comma.simps str_nat.simps digit_def)
  have r: "rows example_table = 3" by (simp add: rows_def len_def example_table_def)
  have f2': "format_comma (Suc (Suc 0)) = ''2''" using f2 by (simp add: numeral_2_eq_2)
  from render_READY_metrics[OF render_example_READY, of p]
  show "out (render p example_table) ! 1 =
         Columns [1, 1, 1, 1]
           [[Metric ''Countries'' ''2''], [Metric ''Indicators'' ''2''],
            [Metric ''Years'' em_dash], [Metric ''Rows'' ''3'']]"
    by (auto simp: year_absent[OF y] metrics_def years_text_def countries_example indicators_example f2 f2' f3 r)
qed

theorem indicators_metric_sorted_distinct_witness:
  "outcome (render ''p'' example_table) = READY
   \<and> indicators example_table = [StrV ''GDP'', StrV ''Inflation'']
   \<and> (\<exists>k1 k3 k4. out (render ''p'' example_table) ! 1 =
         Columns [1, 1, 1, 1] [k1, [Metric ''Indicators'' ''2''], k3, k4])"
proof -
  have f2: "format_comma 2 = ''2''"
    by (simp add: format_comma.simps str_nat.simps digit_def)
  have l: "length (indicators example_table) = 2" by (simp add: indicators_example)
  from indicators_metric_sorted_distinct[of example_table "''p''"] indicators_example
  show ?thesis unfolding l f2 by blast
qed

text \<open>
  C5, as the code has it. On a table of N rows that is not empty and whose year bounds
  (lines 57 and 58) are computed without an error, the page is drawn, and it ends with the
  expander holding the preview and the caption. That preview has N rows when N is at most
  50 and 50 rows otherwise, every shown column has exactly that many cells, and row \<open>i\<close>
  of the preview holds in each shown column what row \<open>i\<close> of the table holds: the first
  rows, in file order.
\<close>

theorem preview_first_50_rows:
  assumes "well_formed df" "\<not> empty df" "year_min df = Inr ymin" "year_max df = Inr ymax"
  shows "\<exists>d. preview df = Inr d
           \<and> nrows d = (if nrows df \<le> 50 then nrows df else 50)
           \<and> well_formed d
           \<and> (\<forall>i < nrows d. \<forall>c \<in> set (columns d). cell d i c = cell df i c)
           \<and> outcome (render p df) = READY
           \<and> (\<exists>before. out (render p df) =
                 before @ [Expander ''Show dataset preview'' [Dataframe d ''stretch''], caption])"
proof -
  from assms(1) have d: "distinct (columns df)" by (simp add: well_formed_def)
  let ?d = "projr (preview df)"
  have p: "preview df = Inr ?d" by (simp add: preview_eq)
  have n: "nrows ?d = (if nrows df \<le> 50 then nrows df else 50)"
    by (simp add: preview_cols[OF d])
  have c: "\<forall>i < nrows ?d. \<forall>c \<in> set (columns ?d). cell ?d i c = cell df i c"
    using preview_cell[OF d] by (simp add: preview_columns[OF d] n split: if_splits)
  from p n c preview_well_formed[OF assms(1)] render_page[OF assms(2-4), of p]
  show ?thesis by blast
qed

theorem preview_first_50_rows_witness:
  "well_formed long_table \<and> \<not> empty long_table \<and> nrows long_table = 60
   \<and> (\<exists>lo hi. year_min long_table = Inr (Some lo) \<and> year_max long_table = Inr (Some hi))
   \<and> (\<exists>d. preview long_table = Inr d \<and> nrows d = 50 \<and> well_formed d
         \<and> (\<forall>i < 50. cell d i ''year'' = cell long_table i ''year'')
         \<and> outcome (render ''p'' long_table) = READY
         \<and> (\<exists>before. out (render ''p'' long_table) =
               before @ [Expander ''Show dataset preview'' [Dataframe d ''stretch''], caption]))
   \<and> well_formed example_table \<and> \<not> empty example_table \<and> nrows example_table = 3
   \<and> (\<exists>d. preview example_table = Inr d \<and> nrows d = 3
         \<and> outcome (render ''p'' example_table) = READY
         \<and> (\<exists>before. out (render ''p'' example_table) =
               before @ [Expander ''Show dataset preview'' [Dataframe d ''stretch''], caption]))"
proof -
  have n: "nrows long_table = 60" "nrows example_table = 3"
    by (simp_all add: long_table_def example_table_def)
  have y: "columns (projr (preview long_table)) = [''year'']"
    using well_formed_long
    by (simp add: preview_columns well_formed_def) (simp add: show_cols_def columns_def long_table_def)
  from year_bounds_long obtain lo hi
    where b: "year_min long_table = Inr (Some lo)" "year_max long_table = Inr (Some hi)" by blast
  from preview_first_50_rows[OF well_formed_long not_empty_long b, of "''p''"]
  have l: "\<exists>d. preview long_table = Inr d \<and> nrows d = 50 \<and> well_formed d
         \<and> (\<forall>i < 50. cell d i ''year'' = cell long_table i ''year'')
         \<and> outcome (render ''p'' long_table) = READY
         \<and> (\<exists>before. out (render ''p'' long_table) =
               before @ [Expander ''Show dataset preview'' [Dataframe d ''stretch''], caption])"
    using y by (auto simp: n)
  have a: "''year'' \<notin> set (columns example_table)" by (simp add: columns_example)
  from preview_first_50_rows[OF well_formed_example not_empty_example year_absent[OF a], of "''p''"]
  have e: "\<exists>d. preview example_table = Inr d \<and> nrows d = 3
         \<and> outcome (render ''p'' example_table) = READY
         \<and> (\<exists>before. out (render ''p'' example_table) =
               before @ [Expander ''Show dataset preview'' [Dataframe d ''stretch''], caption])"
    by (auto simp: n)
  show ?thesis
    by (intro conjI) (rule well_formed_long not_empty_long n year_bounds_long l
                          well_formed_example not_empty_example e)+
qed

text \<open>
  C5 as the specification states it fails on a table that is not empty and whose year
  column holds no year: line 57 raises, the run ends after the header, and no preview is
  shown for its two rows.
\<close>

theorem preview_first_50_rows_counterexample:
  "well_formed nan_years_table \<and> \<not> empty nan_years_table \<and> nrows nan_years_table = 2
   \<and> render ''p'' nan_years_table = \<lparr>out = [MarkdownHtml hero_html], outcome = CRASHED ValueError\<rparr>"
proof -
  have w: "well_formed nan_years_table"
    by (simp add: well_formed_def columns_def nan_years_table_def)
  have e: "\<not> empty nan_years_table" by (simp add: empty_def nan_years_table_def)
  have n: "nrows nan_years_table = 2" by (simp add: nan_years_table_def)
  have g: "getitem nan_years_table ''year'' = Inr (NumCol [None, None])"
    by (simp add: getitem_def nan_years_table_def)
  have m: "int_min (NumCol [None, None]) = Inl ValueError" by (simp add: dropna_def)
  from w e n render_year_missing[OF e g m] show ?thesis by blast
qed

text \<open>
  C6. The columns of the preview are the labels of the allowlist that the table has, in
  the order of the allowlist: as a set, the intersection of the allowlist with the table's
  columns. Two tables with the same set of labels get the same preview columns, in whatever
  order each table holds them.
\<close>

theorem preview_columns_allowlist:
  assumes "distinct (columns df)"
  shows "\<exists>d. preview df = Inr d
           \<and> columns d = filter (\<lambda>c. c \<in> set (columns df))
                 [''country'', ''country_code'', ''year'', ''indicator_name'', ''value'', ''source'']
           \<and> set (columns d) =
                 set [''country'', ''country_code'', ''year'', ''indicator_name'', ''value'', ''source'']
                 \<inter> set (columns df)
           \<and> (\<forall>df'. distinct (columns df') \<and> set (columns df') = set (columns df) \<longrightarrow>
                  (\<exists>d'. preview df' = Inr d' \<and> columns d' = columns d))"
proof -
  let ?d = "projr (preview df)"
  have p: "preview df = Inr ?d" by (simp add: preview_eq)
  have c: "columns ?d = filter (\<lambda>c. c \<in> set (columns df))
                 [''country'', ''country_code'', ''year'', ''indicator_name'', ''value'', ''source'']"
    unfolding preview_columns[OF assms] show_cols_def ..
  have s: "set (columns ?d) =
                 set [''country'', ''country_code'', ''year'', ''indicator_name'', ''value'', ''source'']
                 \<inter> set (columns df)"
    unfolding c set_filter by blast
  have o: "\<exists>d'. preview df' = Inr d' \<and> columns d' = columns ?d"
    if "distinct (columns df')" "set (columns df') = set (columns df)" for df'
  proof -
    have "columns (projr (preview df')) = columns ?d"
      unfolding preview_columns[OF assms] preview_columns[OF that(1)] show_cols_def that(2) ..
    moreover have "preview df' = Inr (projr (preview df'))" by (simp add: preview_eq)
    ultimately show ?thesis by blast
  qed
  from p c s o show ?thesis by blast
qed

theorem preview_columns_allowlist_witness:
  "distinct (columns years_table) \<and> columns years_table = [''value'', ''year'']
   \<and> (\<exists>d. preview years_table = Inr d \<and> columns d = [''year'', ''value''])"
proof -
  have c: "columns years_table = [''value'', ''year'']"
    by (simp add: columns_def years_table_def)
  have d: "distinct (columns years_table)" by (simp add: c)
  from preview_columns_allowlist[OF d] c d show ?thesis by auto
qed




text \<open>
  C8. Once a call of the memoised loader has returned a table for a path, every later call
  with that path in the same process returns that table and leaves the process state as it
  is, trace of storage accesses included: it neither asks whether the file exists nor reads
  it, whatever the storage holds by then and whatever other loads ran in between.
\<close>

theorem cached_load_data_memoized:
  assumes "cached_load_data fs s p = (Inr df, s1)"
  shows "cached_load_data fs' (calls cs s1) p = (Inr df, calls cs s1)
         \<and> trace (snd (cached_load_data fs' (calls cs s1) p)) = trace (calls cs s1)"
  using cached_load_hit[OF calls_keeps[OF cached_load_stores[OF assms]], of fs' cs] by simp

theorem cached_load_data_memoized_witness:
  "cached_load_data [''f'' \<mapsto> Parquet example_table] \<lparr>cache = Map.empty, trace = []\<rparr> ''f''
     = (Inr example_table,
        \<lparr>cache = [''f'' \<mapsto> example_table], trace = [Exists ''f'', ReadParquet ''f'']\<rparr>)
   \<and> cached_load_data Map.empty
        \<lparr>cache = [''f'' \<mapsto> example_table], trace = [Exists ''f'', ReadParquet ''f'']\<rparr> ''f''
     = (Inr example_table,
        \<lparr>cache = [''f'' \<mapsto> example_table], trace = [Exists ''f'', ReadParquet ''f'']\<rparr>)"
proof -
  have a: "cached_load_data [''f'' \<mapsto> Parquet example_table] \<lparr>cache = Map.empty, trace = []\<rparr> ''f''
     = (Inr example_table,
        \<lparr>cache = [''f'' \<mapsto> example_table], trace = [Exists ''f'', ReadParquet ''f'']\<rparr>)"
    by (simp add: cached_load_data_def load_data_def)
  from cached_load_data_memoized[OF a, of Map.empty "[]"] a show ?thesis by simp
qed

text \<open>
  C9. A path with no file and a path whose file holds a table of zero rows are treated
  alike. The loader returns for each a table that is empty in the sense of \<open>df.empty\<close>,
  the page drawn from one is the page drawn from the other, and it is the halted page. Run
  as a whole from the same process state, with nothing cached for the data path, the script
  emits the same page on a storage where the data file is absent as on one where it holds
  zero rows.
\<close>

theorem absent_and_zero_rows_alike:
  assumes "fs p = None" "fs' q = Some (Parquet t)" "nrows t = 0"
  shows "\<exists>d d'. fst (load_data fs p) = Inr d \<and> fst (load_data fs' q) = Inr d'
           \<and> empty d \<and> empty d'
           \<and> render data_path d = render data_path d'
           \<and> outcome (render data_path d) = HALTED
           \<and> (p = DATA_PATH b \<and> q = DATA_PATH b \<and> cache s (DATA_PATH b) = None \<longrightarrow>
                fst (home b fs s) = fst (home b fs' s))"
proof -
  have l: "fst (load_data fs p) = Inr DataFrame" "fst (load_data fs' q) = Inr t"
    using assms by (simp_all add: load_data_def)
  have e: "empty DataFrame" "empty t"
    using assms(3) by (simp_all add: empty_def DataFrame_def)
  have r: "render x DataFrame = render x t" for x
    by (rule render_empty_eq[OF e])
  have h: "outcome (render data_path DataFrame) = HALTED"
    using e(1) by (simp add: render_def)
  have w: "fst (home b fs s) = fst (home b fs' s)"
    if "p = DATA_PATH b" "q = DATA_PATH b" "cache s (DATA_PATH b) = None"
  proof -
    from cached_load_cold[OF that(3), of fs DataFrame] l(1) that(1)
    obtain s1 where "cached_load_data fs s (DATA_PATH b) = (Inr DataFrame, s1)" by auto
    moreover from cached_load_cold[OF that(3), of fs' t] l(2) that(2)
    obtain s2 where "cached_load_data fs' s (DATA_PATH b) = (Inr t, s2)" by auto
    ultimately show ?thesis
      by (simp only: home_loaded r[of "DATA_PATH b"])
  qed
  show ?thesis
  proof (intro exI conjI impI)
    show "fst (load_data fs p) = Inr DataFrame" by (rule l(1))
    show "fst (load_data fs' q) = Inr t" by (rule l(2))
    show "empty DataFrame" by (rule e(1))
    show "empty t" by (rule e(2))
    show "render data_path DataFrame = render data_path t" by (rule r)
    show "outcome (render data_path DataFrame) = HALTED" by (rule h)
    show "fst (home b fs s) = fst (home b fs' s)"
      if "p = DATA_PATH b \<and> q = DATA_PATH b \<and> cache s (DATA_PATH b) = None"
      using that by (intro w) simp_all
  qed
qed

theorem absent_and_zero_rows_alike_witness:
  "(Map.empty :: storage) (DATA_PATH ''/app'') = None
   \<and> [DATA_PATH ''/app'' \<mapsto> Parquet zero_rows_table] (DATA_PATH ''/app'') = Some (Parquet zero_rows_table)
   \<and> nrows zero_rows_table = 0
   \<and> fst (home ''/app'' Map.empty \<lparr>cache = Map.empty, trace = []\<rparr>)
       = fst (home ''/app'' [DATA_PATH ''/app'' \<mapsto> Parquet zero_rows_table] \<lparr>cache = Map.empty, trace = []\<rparr>)
   \<and> fst (home ''/app'' Map.empty \<lparr>cache = Map.empty, trace = []\<rparr>)
       = \<lparr>out = [PageConfig ''Global Economy Dashboard'' ''wide'' ''expanded'',
                 MarkdownHtml hero_html,
                 Warning (warning_text ''/app/data/processed/econ_option_a.parquet'')],
          outcome = HALTED\<rparr>"
proof -
  have n: "nrows zero_rows_table = 0" by (simp add: zero_rows_table_def)
  have a: "(Map.empty :: storage) (DATA_PATH ''/app'') = None" by simp
  have b: "[DATA_PATH ''/app'' \<mapsto> Parquet zero_rows_table] (DATA_PATH ''/app'') = Some (Parquet zero_rows_table)"
    by simp
  have e: "empty DataFrame" by (simp add: empty_def DataFrame_def)
  have c: "cached_load_data Map.empty \<lparr>cache = Map.empty, trace = []\<rparr> (DATA_PATH ''/app'')
             = (Inr DataFrame, \<lparr>cache = [DATA_PATH ''/app'' \<mapsto> DataFrame],
                               trace = [Exists (DATA_PATH ''/app'')]\<rparr>)"
    by (simp add: cached_load_data_def load_data_def)
  have h: "fst (home ''/app'' Map.empty \<lparr>cache = Map.empty, trace = []\<rparr>)
       = \<lparr>out = [PageConfig ''Global Economy Dashboard'' ''wide'' ''expanded'',
                 MarkdownHtml hero_html,
                 Warning (warning_text ''/app/data/processed/econ_option_a.parquet'')],
          outcome = HALTED\<rparr>"
    unfolding home_loaded[OF c] using e by (simp add: render_def DATA_PATH_app)
  from absent_and_zero_rows_alike[of Map.empty "DATA_PATH ''/app''"
         "[DATA_PATH ''/app'' \<mapsto> Parquet zero_rows_table]" "DATA_PATH ''/app''"
         zero_rows_table "''p''" "''/app''" "\<lparr>cache = Map.empty, trace = []\<rparr>"] n
  have x: "fst (home ''/app'' Map.empty \<lparr>cache = Map.empty, trace = []\<rparr>)
       = fst (home ''/app'' [DATA_PATH ''/app'' \<mapsto> Parquet zero_rows_table] \<lparr>cache = Map.empty, trace = []\<rparr>)"
    by auto
  show ?thesis by (intro conjI) (rule a b n x h)+
qed

text \<open>
  C10. Missing values are left out of both distinct counts. Taking away the rows whose
  \<open>country_code\<close> is missing leaves the Countries statistic as it is; taking away the rows
  whose \<open>indicator_name\<close> is missing leaves the indicator list, and so the Indicators
  metric, as it is; and the list never holds the missing value. The Rows statistic counts
  such rows like any other: for each column it is the number of rows with a value there
  plus the number of rows without one.
\<close>

theorem missing_values_not_counted:
  assumes "well_formed df"
  shows "countries (drop_rows_missing ''country_code'' df) = countries df
         \<and> indicators (drop_rows_missing ''indicator_name'' df) = indicators df
         \<and> NoneV \<notin> set (indicators df)
         \<and> rows df = nrows df
         \<and> rows df = rows (drop_rows_missing c df) + missing_rows c df"
proof (intro conjI)
  show "countries (drop_rows_missing ''country_code'' df) = countries df"
  proof (cases "getitem df ''country_code''")
    case (Inl e)
    then show ?thesis by (simp add: drop_absent)
  next
    case (Inr s)
    then show ?thesis by (simp add: countries_def getitem_drop nunique_mask)
  qed
  show "indicators (drop_rows_missing ''indicator_name'' df) = indicators df"
  proof (cases "getitem df ''indicator_name''")
    case (Inl e)
    then show ?thesis by (simp add: drop_absent)
  next
    case (Inr s)
    then show ?thesis by (simp add: indicators_def getitem_drop sorted_unique_mask)
  qed
  show "NoneV \<notin> set (indicators df)"
    by (simp add: indicators_def NoneV_notin_sorted_unique split: sum.splits)
  show "rows df = nrows df" by (simp add: rows_def len_def)
  show "rows df = rows (drop_rows_missing c df) + missing_rows c df"
  proof (cases "getitem df c")
    case (Inl e)
    then have "map_of (cols df) c = None"
      by (auto simp: getitem_def split: option.splits)
    with Inl show ?thesis by (simp add: drop_absent missing_rows_def)
  next
    case (Inr s)
    then have m: "map_of (cols df) c = Some s"
      by (auto simp: getitem_def split: option.splits)
    have "rows df = length (cells s)"
      using well_formed_length[OF assms Inr] by (simp add: rows_def len_def)
    also have "\<dots> = length (filter id (notna s)) + length (filter (\<lambda>v. v = NoneV) (cells s))"
      by (simp only: length_notna)
    also have "\<dots> = rows (drop_rows_missing c df) + missing_rows c df"
      using m by (simp add: rows_def len_def drop_rows_missing_def missing_rows_def)
    finally show ?thesis .
  qed
qed

theorem missing_values_not_counted_witness:
  "well_formed gaps_table
   \<and> rows gaps_table = 4 \<and> countries gaps_table = 2
   \<and> indicators gaps_table = [StrV ''GDP'']
   \<and> missing_rows ''country_code'' gaps_table = 1
   \<and> rows (drop_rows_missing ''country_code'' gaps_table) = 3
   \<and> countries (drop_rows_missing ''country_code'' gaps_table) = 2
   \<and> indicators (drop_rows_missing ''indicator_name'' gaps_table) = [StrV ''GDP'']"
proof -
  have r: "rows gaps_table = 4" by (simp add: rows_def len_def gaps_table_def)
  have c: "countries gaps_table = 2"
    by (simp add: countries_def getitem_def gaps_table_def dropna_def)
  have i: "indicators gaps_table = [StrV ''GDP'']"
    by (simp add: indicators_def getitem_def gaps_table_def dropna_def)
  have m: "missing_rows ''country_code'' gaps_table = 1"
    by (simp add: missing_rows_def gaps_table_def)
  from missing_values_not_counted[OF well_formed_gaps, of "''country_code''"] r c i m well_formed_gaps
  show ?thesis by simp
qed

end
